theory Spec2Isabelle
  imports Main "HOL-Library.Word"
begin

unbundle bit_operations_syntax

section \<open>Cross-validation helpers of verde (verde/model\_selection.py)\<close>

subsection \<open>Errors\<close>

text \<open>
  Every exception the modelled code can raise is a value. \<open>Raised\<close> carries the
  failures of the collaborators (estimator, split generator, backend), which the
  module neither inspects nor translates.
\<close>

datatype error =
    ValueError
  | IndexError
  | AttributeError
  | TypeError
  | StopIteration
  | Raised string

subsection \<open>Arrays\<close>

text \<open>
  A numpy array is its shape and its elements in row-major (C) order; the buffer of a
  numpy array of shape \<open>s\<close> holds \<open>prod_list s\<close> elements. \<open>size\<close> is numpy's
  \<open>.size\<close> (the number of elements), \<open>len\<close> is Python's \<open>len\<close> (the first
  dimension; a 0-d array has none) and \<open>ravel\<close> is the 1-d array of the same elements.
\<close>

datatype 'a ndarray = NDArray (shape: "nat list") (flat: "'a list")

definition size_nd :: "'a ndarray \<Rightarrow> nat" where
  "size_nd a = length (flat a)"

definition len_nd :: "'a ndarray \<Rightarrow> error + nat" where
  "len_nd a = (case shape a of [] \<Rightarrow> Inl TypeError | n # _ \<Rightarrow> Inr n)"

definition ravel :: "'a ndarray \<Rightarrow> 'a ndarray" where
  "ravel a = NDArray [length (flat a)] (flat a)"

definition arange :: "nat \<Rightarrow> int list" where
  "arange n = map int [0..<n]"

text \<open>
  \<open>x[index]\<close> for a 1-d array \<open>x\<close> of \<open>n\<close> elements and a 1-d sequence of integers:
  numpy accepts \<open>-n \<le> i < n\<close>, counts a negative \<open>i\<close> from the end, and raises
  IndexError for the first index outside that range. The result is a fresh 1-d array
  with one element per index.
\<close>

definition item :: "'a list \<Rightarrow> int \<Rightarrow> error + 'a" where
  "item xs i =
     (if 0 \<le> i \<and> i < int (length xs) then Inr (xs ! nat i)
      else if i < 0 \<and> - int (length xs) \<le> i then Inr (xs ! nat (int (length xs) + i))
      else Inl IndexError)"

fun items :: "'a list \<Rightarrow> int list \<Rightarrow> error + 'a list" where
  "items xs [] = Inr []"
| "items xs (i # is) =
     (case item xs i of
        Inl e \<Rightarrow> Inl e
      | Inr v \<Rightarrow> (case items xs is of Inl e \<Rightarrow> Inl e | Inr vs \<Rightarrow> Inr (v # vs)))"

definition getitem :: "'a ndarray \<Rightarrow> int list \<Rightarrow> error + 'a ndarray" where
  "getitem x index =
     (case items (flat x) index of
        Inl e \<Rightarrow> Inl e
      | Inr vs \<Rightarrow> Inr (NDArray [length index] vs))"

subsection \<open>select\<close>

text \<open>
  A tuple handed to \<open>select\<close> holds arrays or \<open>None\<close>; the argument itself may be
  \<open>None\<close>.
  \<^verbatim>\<open>
  def select(arrays, index):
      if arrays is None or any(i is None for i in arrays):
          return arrays
      return tuple(i.ravel()[index] for i in arrays)
  \<close>
  The generator expression indexes the elements from left to right and stops at the
  first exception. \<open>None.ravel()\<close> is an AttributeError; the guard keeps that branch
  of \<open>select_each\<close> from being reached through \<open>select\<close>.
\<close>

type_synonym 'a pytuple = "'a ndarray option list"

fun select_each :: "'a pytuple \<Rightarrow> int list \<Rightarrow> error + 'a pytuple" where
  "select_each [] index = Inr []"
| "select_each (None # rest) index = Inl AttributeError"
| "select_each (Some a # rest) index =
     (case getitem (ravel a) index of
        Inl e \<Rightarrow> Inl e
      | Inr b \<Rightarrow>
          (case select_each rest index of
             Inl e \<Rightarrow> Inl e
           | Inr bs \<Rightarrow> Inr (Some b # bs)))"

definition select :: "'a pytuple option \<Rightarrow> int list \<Rightarrow> error + 'a pytuple option" where
  "select arrays index =
     (case arrays of
        None \<Rightarrow> Inr None
      | Some xs \<Rightarrow>
          if list_ex (\<lambda>i. i = None) xs then Inr (Some xs)
          else (case select_each xs index of
                  Inl e \<Rightarrow> Inl e
                | Inr ys \<Rightarrow> Inr (Some ys)))"

subsection \<open>Input normalizer\<close>

text \<open>
  Modelled from the spec: \<open>check_fit_input\<close> lives in verde/base.py, which is not
  among the sources; section 4.1 of the specification describes it. Data is one array
  or a tuple of arrays and becomes a tuple; weights are absent, one array or a tuple of
  arrays and become either a tuple mirroring the data components or the tuple of the
  absent marker (the doctest of \<open>train_test_split\<close> prints it as \<open>(None,)\<close>).
  A different number of weight and data components, or arrays whose flattened lengths
  differ, are a validation error.
\<close>

datatype 'a array_or_tuple = Single "'a ndarray" | Tuple "'a ndarray list"

definition as_tuple :: "'a array_or_tuple \<Rightarrow> 'a ndarray list" where
  "as_tuple x = (case x of Single a \<Rightarrow> [a] | Tuple as \<Rightarrow> as)"

definition same_sizes :: "'a ndarray list \<Rightarrow> bool" where
  "same_sizes as = (case as of [] \<Rightarrow> True | a # rest \<Rightarrow> list_all (\<lambda>b. size_nd b = size_nd a) rest)"

definition check_fit_input ::
  "'a ndarray list \<Rightarrow> 'a array_or_tuple \<Rightarrow> 'a array_or_tuple option
     \<Rightarrow> error + ('a pytuple \<times> 'a pytuple \<times> 'a pytuple)" where
  "check_fit_input coordinates data weights =
     (let data_tuple = as_tuple data;
          weight_arrays = (case weights of None \<Rightarrow> [] | Some w \<Rightarrow> as_tuple w)
      in if weights \<noteq> None \<and> length weight_arrays \<noteq> length data_tuple then Inl ValueError
         else if \<not> same_sizes (coordinates @ data_tuple @ weight_arrays) then Inl ValueError
         else Inr (map Some coordinates, map Some data_tuple,
                   (case weights of None \<Rightarrow> [None] | Some w \<Rightarrow> map Some weight_arrays)))"

subsection \<open>train\_test\_split\<close>

text \<open>
  \<open>tuple(select(i, index) for i in args)\<close> for the triple
  \<open>args = (coordinates, data, weights)\<close>: the three selections in that order.
\<close>

type_synonym 'a fold_data = "'a pytuple option \<times> 'a pytuple option \<times> 'a pytuple option"

definition select_args ::
  "'a pytuple \<times> 'a pytuple \<times> 'a pytuple \<Rightarrow> int list \<Rightarrow> error + 'a fold_data" where
  "select_args args index =
     (case args of (coordinates, data, weights) \<Rightarrow>
        (case select (Some coordinates) index of
           Inl e \<Rightarrow> Inl e
         | Inr c \<Rightarrow>
             (case select (Some data) index of
                Inl e \<Rightarrow> Inl e
              | Inr d \<Rightarrow>
                  (case select (Some weights) index of
                     Inl e \<Rightarrow> Inl e
                   | Inr w \<Rightarrow> Inr (c, d, w)))))"

text \<open>\<open>data[0].size\<close> on the normalized data tuple.\<close>

definition first_size :: "'a pytuple \<Rightarrow> error + nat" where
  "first_size data =
     (case data of
        [] \<Rightarrow> Inl IndexError
      | None # _ \<Rightarrow> Inl AttributeError
      | Some a # _ \<Rightarrow> Inr (size_nd a))"

text \<open>
  The split generators are scikit-learn's. A generator is the finite list of what its
  iteration produces: a pair (train indices, test indices) or the exception that ends
  it. \<open>ShuffleSplit\<close> is a parameter of the model: it takes \<open>n_splits\<close>, the
  remaining keyword arguments, the state \<open>g\<close> of numpy's process-wide random
  generator (which an unseeded shuffle reads) and the index sequence.
  \<^verbatim>\<open>
  args = check_fit_input(coordinates, data, weights, unpack=False)
  ndata = args[1][0].size
  indices = np.arange(ndata)
  split = next(ShuffleSplit(n_splits=1, **kwargs).split(indices))
  train, test = (tuple(select(i, index) for i in args) for index in split)
  return train, test
  \<close>
  A caller's own \<open>n_splits\<close> keyword collides with the literal one: Python raises
  TypeError for the repeated keyword.
\<close>

type_synonym split_items = "(error + (int list \<times> int list)) list"

type_synonym ('v, 'g) shuffle_split =
  "int \<Rightarrow> (string \<times> 'v) list \<Rightarrow> 'g \<Rightarrow> int list \<Rightarrow> split_items"

definition train_test_split ::
  "('v, 'g) shuffle_split \<Rightarrow> 'g \<Rightarrow> 'a ndarray list \<Rightarrow> 'a array_or_tuple
     \<Rightarrow> 'a array_or_tuple option \<Rightarrow> (string \<times> 'v) list
     \<Rightarrow> error + ('a fold_data \<times> 'a fold_data)" where
  "train_test_split ShuffleSplit g coordinates data weights kwargs =
     (case check_fit_input coordinates data weights of
        Inl e \<Rightarrow> Inl e
      | Inr args \<Rightarrow>
          (case first_size (fst (snd args)) of
             Inl e \<Rightarrow> Inl e
           | Inr ndata \<Rightarrow>
               if ''n_splits'' \<in> set (map fst kwargs) then Inl TypeError
               else
                 (case ShuffleSplit 1 kwargs g (arange ndata) of
                    [] \<Rightarrow> Inl StopIteration
                  | Inl e # _ \<Rightarrow> Inl e
                  | Inr (train_index, test_index) # _ \<Rightarrow>
                      (case select_args args train_index of
                         Inl e \<Rightarrow> Inl e
                       | Inr train \<Rightarrow>
                           (case select_args args test_index of
                              Inl e \<Rightarrow> Inl e
                            | Inr test \<Rightarrow> Inr (train, test))))))"

text \<open>
  The splitter as section 4.3 of the specification words it, with
  \<open>n = len(data_tuple[0])\<close>; it differs from \<open>train_test_split\<close> in that line only.
\<close>

definition first_len :: "'a pytuple \<Rightarrow> error + nat" where
  "first_len data =
     (case data of
        [] \<Rightarrow> Inl IndexError
      | None # _ \<Rightarrow> Inl TypeError
      | Some a # _ \<Rightarrow> len_nd a)"

definition train_test_split_spec ::
  "('v, 'g) shuffle_split \<Rightarrow> 'g \<Rightarrow> 'a ndarray list \<Rightarrow> 'a array_or_tuple
     \<Rightarrow> 'a array_or_tuple option \<Rightarrow> (string \<times> 'v) list
     \<Rightarrow> error + ('a fold_data \<times> 'a fold_data)" where
  "train_test_split_spec ShuffleSplit g coordinates data weights kwargs =
     (case check_fit_input coordinates data weights of
        Inl e \<Rightarrow> Inl e
      | Inr args \<Rightarrow>
          (case first_len (fst (snd args)) of
             Inl e \<Rightarrow> Inl e
           | Inr n \<Rightarrow>
               if ''n_splits'' \<in> set (map fst kwargs) then Inl TypeError
               else
                 (case ShuffleSplit 1 kwargs g (arange n) of
                    [] \<Rightarrow> Inl StopIteration
                  | Inl e # _ \<Rightarrow> Inl e
                  | Inr (train_index, test_index) # _ \<Rightarrow>
                      (case select_args args train_index of
                         Inl e \<Rightarrow> Inl e
                       | Inr train \<Rightarrow>
                           (case select_args args test_index of
                              Inl e \<Rightarrow> Inl e
                            | Inr test \<Rightarrow> Inr (train, test))))))"

subsection \<open>fit\_score and the execution backend\<close>

text \<open>
  An estimator is consumed through \<open>fit\<close>, which changes the estimator object, and
  \<open>score\<close>, which reads it; either may raise. The state of the object is \<open>'w\<close>.
  \<^verbatim>\<open>
  def fit_score(estimator, train_data, test_data):
      estimator.fit(*train_data)
      return estimator.score(*test_data)
  \<close>
\<close>

record ('w, 'a, 'r) estimator =
  fit :: "'w \<Rightarrow> 'a fold_data \<Rightarrow> error + 'w"
  score :: "'w \<Rightarrow> 'a fold_data \<Rightarrow> error + 'r"

definition fit_score ::
  "('w, 'a, 'r) estimator \<Rightarrow> 'a fold_data \<Rightarrow> 'a fold_data \<Rightarrow> 'w \<Rightarrow> error + ('r \<times> 'w)" where
  "fit_score estimator train_data test_data w =
     (case fit estimator w train_data of
        Inl e \<Rightarrow> Inl e
      | Inr w' \<Rightarrow>
          (case score estimator w' test_data of
             Inl e \<Rightarrow> Inl e
           | Inr r \<Rightarrow> Inr (r, w')))"

text \<open>
  A backend is its \<open>submit(callable, estimator, train_data, test_data)\<close>; what it
  returns (a score or a future) has the type \<open>'r\<close> of a work result.

  Modelled from the spec: \<open>DummyClient\<close> lives in verde/utils.py, which is not among
  the sources; section 4.5 of the specification describes the immediate backend as
  calling the callable synchronously and returning its result directly.
\<close>

type_synonym ('w, 'a, 'r) work =
  "('w, 'a, 'r) estimator \<Rightarrow> 'a fold_data \<Rightarrow> 'a fold_data \<Rightarrow> 'w \<Rightarrow> error + ('r \<times> 'w)"

type_synonym ('w, 'a, 'r) client = "('w, 'a, 'r) work \<Rightarrow> ('w, 'a, 'r) work"

definition DummyClient_submit :: "('w, 'a, 'r) client" where
  "DummyClient_submit f estimator train_data test_data w = f estimator train_data test_data w"

subsection \<open>cross\_val\_score\<close>

text \<open>
  \<^verbatim>\<open>
  coordinates, data, weights = check_fit_input(coordinates, data, weights, unpack=False)
  if client is None:
      client = DummyClient()
  if cv is None:
      cv = KFold(shuffle=True, random_state=0, n_splits=5)
  ndata = data[0].size
  args = (coordinates, data, weights)
  scores = []
  for train, test in cv.split(np.arange(ndata)):
      train_data, test_data = (
          tuple(select(i, index) for i in args) for index in (train, test))
      score = client.submit(fit_score, estimator, train_data, test_data)
      scores.append(score)
  return np.asarray(scores)
  \<close>
  The loop is \<open>cv_loop\<close>: it runs over what the generator produces, with the scores
  collected so far and the state of the estimator. \<open>KFold\<close> is scikit-learn's and a
  parameter (shuffle, random\_state, n\_splits, index sequence). \<open>np.asarray\<close> of the
  list of work results is the 1-d array of them.
\<close>

fun cv_loop ::
  "('w, 'a, 'r) client \<Rightarrow> ('w, 'a, 'r) estimator \<Rightarrow> 'a pytuple \<times> 'a pytuple \<times> 'a pytuple
     \<Rightarrow> split_items \<Rightarrow> 'r list \<Rightarrow> 'w \<Rightarrow> error + ('r list \<times> 'w)" where
  "cv_loop submit estimator args [] scores w = Inr (scores, w)"
| "cv_loop submit estimator args (Inl e # rest) scores w = Inl e"
| "cv_loop submit estimator args (Inr (train, test) # rest) scores w =
     (case select_args args train of
        Inl e \<Rightarrow> Inl e
      | Inr train_data \<Rightarrow>
          (case select_args args test of
             Inl e \<Rightarrow> Inl e
           | Inr test_data \<Rightarrow>
               (case submit fit_score estimator train_data test_data w of
                  Inl e \<Rightarrow> Inl e
                | Inr (s, w') \<Rightarrow> cv_loop submit estimator args rest (scores @ [s]) w')))"

definition asarray :: "'r list \<Rightarrow> 'r ndarray" where
  "asarray xs = NDArray [length xs] xs"

definition cross_val_score ::
  "(bool \<Rightarrow> int \<Rightarrow> int \<Rightarrow> int list \<Rightarrow> split_items) \<Rightarrow> ('w, 'a, 'r) estimator \<Rightarrow> 'w
     \<Rightarrow> 'a ndarray list \<Rightarrow> 'a array_or_tuple \<Rightarrow> 'a array_or_tuple option
     \<Rightarrow> (int list \<Rightarrow> split_items) option \<Rightarrow> ('w, 'a, 'r) client option
     \<Rightarrow> error + ('r ndarray \<times> 'w)" where
  "cross_val_score KFold estimator w coordinates data weights cv client =
     (case check_fit_input coordinates data weights of
        Inl e \<Rightarrow> Inl e
      | Inr args \<Rightarrow>
          (let submit = (case client of None \<Rightarrow> DummyClient_submit | Some c \<Rightarrow> c);
               split = (case cv of None \<Rightarrow> KFold True 0 5 | Some c \<Rightarrow> c)
           in case first_size (fst (snd args)) of
                Inl e \<Rightarrow> Inl e
              | Inr ndata \<Rightarrow>
                  (case cv_loop submit estimator args (split (arange ndata)) [] w of
                     Inl e \<Rightarrow> Inl e
                   | Inr (scores, w') \<Rightarrow> Inr (asarray scores, w'))))"

subsection \<open>select on a store\<close>

text \<open>
  Where aliasing matters an array is a reference into a store of buffers: the address
  of its buffer and its shape. Two references with one address share their elements.
  The store is the list of the buffers allocated so far, so a fresh address is its
  length. \<open>ravel\<close> of a contiguous array is a view (the same buffer under another
  shape); indexing with a sequence of integers allocates a new buffer for the
  elements it gathers.
\<close>

record aref =
  addr :: nat
  dims :: "nat list"

type_synonym 'a store = "'a list list"

definition deref :: "'a store \<Rightarrow> aref \<Rightarrow> 'a ndarray" where
  "deref h r = NDArray (dims r) (h ! addr r)"

definition ravel_st :: "'a store \<Rightarrow> aref \<Rightarrow> aref" where
  "ravel_st h r = \<lparr>addr = addr r, dims = [length (h ! addr r)]\<rparr>"

definition getitem_st :: "'a store \<Rightarrow> aref \<Rightarrow> int list \<Rightarrow> error + (aref \<times> 'a store)" where
  "getitem_st h r index =
     (case items (h ! addr r) index of
        Inl e \<Rightarrow> Inl e
      | Inr vs \<Rightarrow> Inr (\<lparr>addr = length h, dims = [length index]\<rparr>, h @ [vs]))"

fun select_each_st ::
  "'a store \<Rightarrow> aref option list \<Rightarrow> int list \<Rightarrow> error + (aref option list \<times> 'a store)" where
  "select_each_st h [] index = Inr ([], h)"
| "select_each_st h (None # rest) index = Inl AttributeError"
| "select_each_st h (Some r # rest) index =
     (case getitem_st h (ravel_st h r) index of
        Inl e \<Rightarrow> Inl e
      | Inr (b, h') \<Rightarrow>
          (case select_each_st h' rest index of
             Inl e \<Rightarrow> Inl e
           | Inr (bs, h'') \<Rightarrow> Inr (Some b # bs, h'')))"

definition select_st ::
  "'a store \<Rightarrow> aref option list option \<Rightarrow> int list
     \<Rightarrow> error + (aref option list option \<times> 'a store)" where
  "select_st h arrays index =
     (case arrays of
        None \<Rightarrow> Inr (None, h)
      | Some xs \<Rightarrow>
          if list_ex (\<lambda>i. i = None) xs then Inr (Some xs, h)
          else (case select_each_st h xs index of
                  Inl e \<Rightarrow> Inl e
                | Inr (ys, h') \<Rightarrow> Inr (Some ys, h')))"

subsection \<open>scikit-learn's ShuffleSplit on numpy's random generator\<close>

text \<open>
  \<open>ShuffleSplit\<close> and \<open>numpy.random.RandomState\<close> belong to scikit-learn and numpy,
  not to this repository. They are written out here from their published algorithms
  so that a seed determines a partition.

  The generator is MT19937 (Matsumoto and Nishimura). A state is a block of 624 words
  and the number of words of the block drawn so far. Seeding by an integer fills the
  block with \<open>key[0] = seed\<close> and
  \<open>key[i] = 1812433253 * (key[i-1] XOR (key[i-1] >> 30)) + i\<close>. Word
  \<open>k\<close> of the regenerated block combines the top bit of \<open>key[k]\<close>, the low 31 bits
  of its successor and the word 397 places further on, taken cyclically; the
  regeneration runs in place from \<open>k = 0\<close>, so a word it has passed is already new.
  An output is a regenerated word after tempering.
\<close>

type_synonym rk_state = "32 word list \<times> nat"

definition key_step :: "32 word \<Rightarrow> nat \<Rightarrow> 32 word" where
  "key_step w i = 1812433253 * (w XOR drop_bit 30 w) + word_of_nat i"

primrec key_word :: "32 word \<Rightarrow> nat \<Rightarrow> 32 word" where
  "key_word s 0 = s"
| "key_word s (Suc i) = key_step (key_word s i) (Suc i)"

definition rk_seed :: "32 word \<Rightarrow> rk_state" where
  "rk_seed s = (map (key_word s) [0..<624], 0)"

definition mix :: "32 word \<Rightarrow> 32 word \<Rightarrow> 32 word \<Rightarrow> 32 word" where
  "mix cur nxt far =
     far XOR drop_bit 1 ((cur AND 0x80000000) OR (nxt AND 0x7fffffff))
         XOR (if bit nxt 0 then 0x9908b0df else 0)"

function regen_word :: "32 word list \<Rightarrow> nat \<Rightarrow> 32 word" where
  "regen_word key k =
     (if k < 227 then mix (key ! k) (key ! (k + 1)) (key ! (k + 397))
      else if k < 623 then mix (key ! k) (key ! (k + 1)) (regen_word key (k - 227))
      else if k = 623 then mix (key ! 623) (regen_word key 0) (regen_word key 396)
      else 0)"
  by pat_completeness auto
termination
  by (relation "measure snd") auto

declare regen_word.simps [simp del]

definition temper1 :: "32 word \<Rightarrow> 32 word" where
  "temper1 y = y XOR drop_bit 11 y"

definition temper2 :: "32 word \<Rightarrow> 32 word" where
  "temper2 y = y XOR (push_bit 7 y AND 0x9d2c5680)"

definition temper3 :: "32 word \<Rightarrow> 32 word" where
  "temper3 y = y XOR (push_bit 15 y AND 0xefc60000)"

definition temper4 :: "32 word \<Rightarrow> 32 word" where
  "temper4 y = y XOR drop_bit 18 y"

definition temper :: "32 word \<Rightarrow> 32 word" where
  "temper y = temper4 (temper3 (temper2 (temper1 y)))"

function rk_random :: "rk_state \<Rightarrow> 32 word \<times> rk_state" where
  "rk_random (key, pos) =
     (if pos < 624 then (temper (regen_word key pos), (key, Suc pos))
      else rk_random (map (regen_word key) [0..<624], pos - 624))"
  by pat_completeness auto
termination
  by (relation "measure snd") auto

declare rk_random.simps [simp del]

text \<open>
  numpy draws an integer in \<open>[0, max]\<close> by masking a word down to the bits of
  \<open>max\<close> and drawing again while the result exceeds \<open>max\<close>. That loop has no
  bound; the model takes the number of draws it may spend as \<open>fuel\<close> and returns
  \<open>None\<close> when they are used up. \<open>shuffle\<close> is numpy's in-place exchange of
  position \<open>i\<close> with a drawn position \<open>j \<le> i\<close>, for \<open>i\<close> from the last position down
  to 1, and \<open>permutation n\<close> shuffles \<open>0..n-1\<close>.
\<close>

fun mask_for :: "nat \<Rightarrow> nat" where
  "mask_for m = (if m = 0 then 0 else 2 * mask_for (m div 2) + 1)"

declare mask_for.simps [simp del]

definition masked :: "32 word \<Rightarrow> nat \<Rightarrow> nat" where
  "masked w m = unat (w AND word_of_nat (mask_for m))"

primrec rk_interval :: "nat \<Rightarrow> nat \<Rightarrow> rk_state \<Rightarrow> (nat \<times> rk_state) option" where
  "rk_interval 0 m st = None"
| "rk_interval (Suc fuel) m st =
     (if m = 0 then Some (0, st)
      else (case rk_random st of
              (w, st') \<Rightarrow>
                if masked w m \<le> m then Some (masked w m, st') else rk_interval fuel m st'))"

primrec shuffle :: "nat \<Rightarrow> nat \<Rightarrow> int list \<Rightarrow> rk_state \<Rightarrow> (int list \<times> rk_state) option" where
  "shuffle fuel 0 x st = Some (x, st)"
| "shuffle fuel (Suc i) x st =
     (case rk_interval fuel (Suc i) st of
        None \<Rightarrow> None
      | Some (j, st') \<Rightarrow> shuffle fuel i (x[Suc i := x ! j, j := x ! Suc i]) st')"

definition permutation :: "nat \<Rightarrow> nat \<Rightarrow> rk_state \<Rightarrow> (int list \<times> rk_state) option" where
  "permutation fuel n st = shuffle fuel (n - 1) (arange n) st"

text \<open>
  The first 227 outputs of a freshly seeded generator need no regenerated word:
  output \<open>pos\<close> is \<open>seeded_out s pos\<close>. \<open>interval_on\<close> and \<open>shuffle_on\<close> are the
  bounded draw and the shuffle read from a sequence of outputs and a position in it;
  they serve to run the draws of a seeded generator without its whole block.
\<close>

definition seeded_out :: "32 word \<Rightarrow> nat \<Rightarrow> 32 word" where
  "seeded_out s pos =
     temper (mix (key_word s pos) (key_word s (Suc pos)) (key_word s (pos + 397)))"

primrec interval_on :: "(nat \<Rightarrow> 32 word) \<Rightarrow> nat \<Rightarrow> nat \<Rightarrow> nat \<Rightarrow> (nat \<times> nat) option" where
  "interval_on out 0 m pos = None"
| "interval_on out (Suc fuel) m pos =
     (if m = 0 then Some (0, pos)
      else (let w = out pos
            in if masked w m \<le> m then Some (masked w m, Suc pos)
               else interval_on out fuel m (Suc pos)))"

primrec shuffle_on ::
  "(nat \<Rightarrow> 32 word) \<Rightarrow> nat \<Rightarrow> nat \<Rightarrow> int list \<Rightarrow> nat \<Rightarrow> (int list \<times> nat) option" where
  "shuffle_on out fuel 0 x pos = Some (x, pos)"
| "shuffle_on out fuel (Suc i) x pos =
     (case interval_on out fuel (Suc i) pos of
        None \<Rightarrow> None
      | Some (j, pos') \<Rightarrow> shuffle_on out fuel i (x[Suc i := x ! j, j := x ! Suc i]) pos')"

text \<open>
  \<open>ShuffleSplit(n_splits, random_state=seed).split(indices)\<close> with the default sizes:
  the test set has \<open>ceil(0.1 * n)\<close> of the \<open>n\<close> samples and the training set the
  rest, and an empty training set is a ValueError. An integer seed in
  \<open>[0, 2^32)\<close> makes a generator of its own (another integer is a ValueError);
  without a seed the process-wide generator \<open>g\<close> is drawn from. Each split takes a
  permutation; its first \<open>n_test\<close> positions are the test indices and the next
  \<open>n_train\<close> the train indices. Options other than \<open>random_state\<close> are outside
  the model.
\<close>

primrec draw_splits :: "nat \<Rightarrow> nat \<Rightarrow> nat \<Rightarrow> nat \<Rightarrow> nat \<Rightarrow> rk_state \<Rightarrow> split_items" where
  "draw_splits fuel 0 n n_test n_train st = []"
| "draw_splits fuel (Suc k) n n_test n_train st =
     (case permutation fuel n st of
        None \<Rightarrow> [Inl (Raised ''out of fuel'')]
      | Some (p, st') \<Rightarrow>
          Inr (take n_train (drop n_test p), take n_test p)
            # draw_splits fuel k n n_test n_train st')"

definition ShuffleSplit_np :: "nat \<Rightarrow> (int, rk_state) shuffle_split" where
  "ShuffleSplit_np fuel n_splits kwargs g indices =
     (if list_ex (\<lambda>kv. fst kv \<noteq> ''random_state'') kwargs
      then [Inl (Raised ''option outside the model'')]
      else if length indices - (length indices + 9) div 10 = 0 then [Inl ValueError]
      else
        (case map_of kwargs ''random_state'' of
           None \<Rightarrow>
             draw_splits fuel (nat n_splits) (length indices) ((length indices + 9) div 10)
               (length indices - (length indices + 9) div 10) g
         | Some seed \<Rightarrow>
             if 0 \<le> seed \<and> seed < 4294967296
             then draw_splits fuel (nat n_splits) (length indices) ((length indices + 9) div 10)
                    (length indices - (length indices + 9) div 10) (rk_seed (word_of_int seed))
             else [Inl ValueError]))"

subsection \<open>Stand-ins for the collaborators\<close>

text \<open>
  Concrete generators, an estimator and a backend on which the theorems below are
  run. \<open>yielding\<close> produces a fixed list whatever it is given. \<open>rotating_split\<close>
  rotates the index sequence by the seed found under \<open>random_state\<close>, or by the
  process-wide state when there is none, and holds out the last index; it emits
  \<open>n_splits\<close> such folds.
\<close>

definition yielding :: "split_items \<Rightarrow> ('v, 'g) shuffle_split" where
  "yielding its n_splits kwargs g indices = its"

definition rotating_split :: "(int, nat) shuffle_split" where
  "rotating_split n_splits kwargs g indices =
     (let k = (case map_of kwargs ''random_state'' of None \<Rightarrow> g | Some seed \<Rightarrow> nat seed);
          p = rotate k indices
      in replicate (nat n_splits) (Inr (take (length p - 1) p, drop (length p - 1) p)))"

text \<open>
  \<open>halves\<close> is a two-fold generator: it trains on the second half of the indices and
  tests on the first, then the other way round. \<open>sum_estimator\<close> keeps the sum of the
  first data component it was fitted on and scores the difference to the sum of the
  test data; each raises on an empty data component.
\<close>

definition halves :: "int list \<Rightarrow> split_items" where
  "halves indices =
     (let h = length indices div 2
      in [Inr (drop h indices, take h indices), Inr (take h indices, drop h indices)])"

definition first_component :: "'a fold_data \<Rightarrow> 'a list" where
  "first_component d =
     (case fst (snd d) of
        Some (Some a # _) \<Rightarrow> flat a
      | _ \<Rightarrow> [])"

definition sum_estimator :: "(int, int, int) estimator" where
  "sum_estimator =
     \<lparr>fit = (\<lambda>w train. if first_component train = [] then Inl (Raised ''fit: no data'')
                        else Inr (sum_list (first_component train))),
      score = (\<lambda>w test. if first_component test = [] then Inl (Raised ''score: no data'')
                         else Inr (w - sum_list (first_component test)))\<rparr>"

text \<open>
  \<open>only_at\<close> answers one question only: it produces the given items when asked for
  the given number of splits of the given index sequence, and raises otherwise.
\<close>

definition only_at :: "int \<Rightarrow> int list \<Rightarrow> split_items \<Rightarrow> ('v, 'g) shuffle_split" where
  "only_at n_splits0 indices0 its n_splits kwargs g indices =
     (if n_splits = n_splits0 \<and> indices = indices0 then its else [Inl ValueError])"

section \<open>Properties of select\<close>

lemma item_in_range:
  assumes "- int (length xs) \<le> i" and "i < int (length xs)"
  shows "item xs i = Inr (xs ! nat (if i < 0 then int (length xs) + i else i))"
  using assms by (simp add: item_def)

lemma items_in_range:
  assumes "\<forall>i\<in>set index. - int (length xs) \<le> i \<and> i < int (length xs)"
  shows "items xs index =
           Inr (map (\<lambda>i. xs ! nat (if i < 0 then int (length xs) + i else i)) index)"
  using assms
proof (induction index)
  case Nil
  then show ?case by simp
next
  case (Cons i rest)
  then have "item xs i = Inr (xs ! nat (if i < 0 then int (length xs) + i else i))"
    by (intro item_in_range) simp_all
  with Cons show ?case by simp
qed

lemma select_each_in_range:
  assumes "\<forall>a\<in>set as. \<forall>i\<in>set index. - int (size_nd a) \<le> i \<and> i < int (size_nd a)"
  shows "select_each (map Some as) index =
           Inr (map (\<lambda>a. Some (NDArray [length index]
                  (map (\<lambda>i. flat a ! nat (if i < 0 then int (size_nd a) + i else i)) index))) as)"
  using assms
proof (induction as)
  case Nil
  then show ?case by simp
next
  case (Cons a rest)
  then have "\<forall>i\<in>set index. - int (length (flat a)) \<le> i \<and> i < int (length (flat a))"
    by (simp add: size_nd_def)
  then have "getitem (ravel a) index = Inr (NDArray [length index]
      (map (\<lambda>i. flat a ! nat (if i < 0 then int (size_nd a) + i else i)) index))"
    by (simp add: getitem_def ravel_def size_nd_def items_in_range)
  with Cons show ?case by simp
qed

lemma list_ex_None_map_Some: "\<not> list_ex (\<lambda>i. i = None) (map Some as)"
  by (induction as) simp_all

text \<open>
  C1. Pass-through: when \<open>arrays\<close> is \<open>None\<close> or is a tuple with at least one
  \<open>None\<close> element, \<open>select\<close> returns \<open>arrays\<close> as it is, whatever the index; no
  element is indexed, so not even an out-of-range index raises.
\<close>

theorem select_pass_through:
  assumes "arrays = None \<or> (\<exists>xs. arrays = Some xs \<and> None \<in> set xs)"
  shows "select arrays index = Inr arrays"
proof -
  have "list_ex (\<lambda>i. i = None) xs" if "None \<in> set xs" for xs :: "'a pytuple"
    using that by (auto simp: list_ex_iff)
  with assms show ?thesis
    by (auto simp: select_def)
qed

theorem select_pass_through_witness:
  "select (Some [Some (NDArray [2] [10, 20 :: int]), None]) [7, -9]
     = Inr (Some [Some (NDArray [2] [10, 20]), None])
   \<and> select (None :: int pytuple option) [7, -9] = Inr None"
  using select_pass_through [of "Some [Some (NDArray [2] [10, 20 :: int]), None]" "[7, -9]"]
    select_pass_through [of "None :: int pytuple option" "[7, -9]"]
  by simp

text \<open>
  C2. Indexing: for a tuple of arrays (none absent) and an index sequence whose
  entries lie in \<open>[0, n)\<close> for the flattened length \<open>n\<close> of every array, \<open>select\<close>
  returns a tuple of the same arity whose component \<open>i\<close> is the 1-d array of the
  elements of the flattened \<open>arrays[i]\<close> at the indices, in index order.
\<close>

theorem select_indexing:
  assumes "\<forall>a\<in>set as. \<forall>k\<in>set idx. 0 \<le> k \<and> k < int (size_nd a)"
  shows "\<exists>res. select (Some (map Some as)) idx = Inr (Some res)
           \<and> length res = length as
           \<and> (\<forall>i<length as.
                res ! i = Some (NDArray [length idx] (map (\<lambda>k. flat (ravel (as ! i)) ! nat k) idx)))"
proof -
  let ?pick = "\<lambda>a. Some (NDArray [length idx]
      (map (\<lambda>k. flat a ! nat (if k < 0 then int (size_nd a) + k else k)) idx))"
  from assms have "\<forall>a\<in>set as. \<forall>k\<in>set idx. - int (size_nd a) \<le> k \<and> k < int (size_nd a)"
    by fastforce
  then have sel: "select (Some (map Some as)) idx = Inr (Some (map ?pick as))"
    by (simp add: select_def list_ex_None_map_Some select_each_in_range)
  have "map ?pick as ! i = Some (NDArray [length idx] (map (\<lambda>k. flat (ravel (as ! i)) ! nat k) idx))"
    if "i < length as" for i
  proof -
    from that have "as ! i \<in> set as" by simp
    with assms have "\<forall>k\<in>set idx. 0 \<le> k" by blast
    then have "map (\<lambda>k. flat (as ! i) ! nat (if k < 0 then int (size_nd (as ! i)) + k else k)) idx
             = map (\<lambda>k. flat (as ! i) ! nat k) idx"
      by (intro map_cong) auto
    with that show ?thesis by (simp add: ravel_def)
  qed
  with sel show ?thesis by simp
qed

theorem select_indexing_witness:
  "\<exists>res. select (Some (map Some [NDArray [5] [0, 1, 2, 3, 4 :: int], NDArray [5] [-3, -2, -1, 0, 1]])) [1, 3]
            = Inr (Some res)
     \<and> length res = 2
     \<and> res ! 0 = Some (NDArray [2] [1, 3]) \<and> res ! 1 = Some (NDArray [2] [-2, 0])"
proof -
  let ?as = "[NDArray [5] [0, 1, 2, 3, 4 :: int], NDArray [5] [-3, -2, -1, 0, 1]]"
  have "\<forall>a\<in>set ?as. \<forall>k\<in>set [1, 3 :: int]. 0 \<le> k \<and> k < int (size_nd a)"
    by (simp add: size_nd_def)
  from select_indexing [OF this] obtain res where
    r: "select (Some (map Some ?as)) [1, 3] = Inr (Some res)" "length res = length ?as"
      "\<forall>i<length ?as. res ! i = Some (NDArray [length [1, 3 :: int]]
           (map (\<lambda>k. flat (ravel (?as ! i)) ! nat k) [1, 3]))"
    by blast
  from r(3) have "res ! 0 = Some (NDArray [2] [1, 3])" "res ! 1 = Some (NDArray [2] [-2, 0])"
    by (simp_all add: ravel_def)
  with r(1,2) show ?thesis by auto
qed

text \<open>
  C10. No bounds validation in \<open>select\<close> itself: for arrays of flattened length
  \<open>n\<close> (none absent), an index sequence with entries in \<open>[-n, 0)\<close> is accepted
  without an error, and entry \<open>k\<close> selects the element at position \<open>n + k\<close>, counted
  from the end of the flattened array.
\<close>

theorem select_negative_index:
  assumes "\<forall>a\<in>set as. size_nd a = n"
    and "\<forall>k\<in>set idx. - int n \<le> k \<and> k < 0"
  shows "select (Some (map Some as)) idx
           = Inr (Some (map (\<lambda>a. Some (NDArray [length idx]
                  (map (\<lambda>k. flat a ! nat (int n + k)) idx))) as))"
proof -
  from assms have "\<forall>a\<in>set as. \<forall>k\<in>set idx. - int (size_nd a) \<le> k \<and> k < int (size_nd a)"
    by fastforce
  then have "select (Some (map Some as)) idx = Inr (Some (map (\<lambda>a. Some (NDArray [length idx]
      (map (\<lambda>k. flat a ! nat (if k < 0 then int (size_nd a) + k else k)) idx))) as))"
    by (simp add: select_def list_ex_None_map_Some select_each_in_range)
  moreover have "map (\<lambda>k. flat a ! nat (if k < 0 then int (size_nd a) + k else k)) idx
      = map (\<lambda>k. flat a ! nat (int n + k)) idx" if "a \<in> set as" for a
    using assms that by (intro map_cong) auto
  ultimately show ?thesis by simp
qed

theorem select_negative_index_witness:
  "select (Some (map Some [NDArray [3] [10, 20, 30 :: int], NDArray [3, 1] [7, 8, 9]])) [-1, -3]
     = Inr (Some [Some (NDArray [2] [30, 10]), Some (NDArray [2] [9, 7])])"
proof -
  let ?as = "[NDArray [3] [10, 20, 30 :: int], NDArray [3, 1] [7, 8, 9]]"
  have a: "\<forall>a\<in>set ?as. size_nd a = 3" by (simp add: size_nd_def)
  have b: "\<forall>k\<in>set [-1, -3 :: int]. - int 3 \<le> k \<and> k < 0" by simp
  show ?thesis using select_negative_index [OF a b] by simp
qed

section \<open>Properties of train\_test\_split\<close>

lemma train_test_split_step:
  assumes "check_fit_input coordinates data weights = Inr args"
    and "first_size (fst (snd args)) = Inr n"
    and "''n_splits'' \<notin> set (map fst kwargs)"
    and "ShuffleSplit 1 kwargs g (arange n) = Inr (train_index, test_index) # later"
    and "select_args args train_index = Inr train"
    and "select_args args test_index = Inr test"
  shows "train_test_split ShuffleSplit g coordinates data weights kwargs = Inr (train, test)"
  using assms by (simp add: train_test_split_def)

text \<open>
  The values of the doctest, given its indices: once the generator yields the train
  indices \<open>[3, 1, 0]\<close> and the test index \<open>[2]\<close>, the selections are the
  listed arrays.
\<close>

lemma train_test_split_at_indices:
  assumes "ShuffleSplit 1 [(''random_state'', 0 :: int)] g [0, 1, 2, 3] = Inr ([3, 1, 0], [2]) # later"
  shows "train_test_split ShuffleSplit g
           [NDArray [4] [0, 1, 2, 3 :: int], NDArray [4] [-4, -3, -2, -1]]
           (Tuple [NDArray [4] [1, 3, 5, 7], NDArray [4] [0, 2, 4, 6]])
           (Some (Tuple [NDArray [4] [1, 1, 2, 1], NDArray [4] [1, 2, 1, 1]]))
           [(''random_state'', 0)]
         = Inr ((Some [Some (NDArray [3] [3, 1, 0]), Some (NDArray [3] [-1, -3, -4])],
                 Some [Some (NDArray [3] [7, 3, 1]), Some (NDArray [3] [6, 2, 0])],
                 Some [Some (NDArray [3] [1, 1, 1]), Some (NDArray [3] [1, 2, 1])]),
                (Some [Some (NDArray [1] [2]), Some (NDArray [1] [-2])],
                 Some [Some (NDArray [1] [5]), Some (NDArray [1] [4])],
                 Some [Some (NDArray [1] [2]), Some (NDArray [1] [1])]))"
proof -
  have chk: "check_fit_input
           [NDArray [4] [0, 1, 2, 3 :: int], NDArray [4] [-4, -3, -2, -1]]
           (Tuple [NDArray [4] [1, 3, 5, 7], NDArray [4] [0, 2, 4, 6]])
           (Some (Tuple [NDArray [4] [1, 1, 2, 1], NDArray [4] [1, 2, 1, 1]]))
     = Inr ([Some (NDArray [4] [0, 1, 2, 3]), Some (NDArray [4] [-4, -3, -2, -1])],
            [Some (NDArray [4] [1, 3, 5, 7]), Some (NDArray [4] [0, 2, 4, 6])],
            [Some (NDArray [4] [1, 1, 2, 1]), Some (NDArray [4] [1, 2, 1, 1])])"
    by (simp add: check_fit_input_def as_tuple_def same_sizes_def size_nd_def)
  have tr: "select_args ([Some (NDArray [4] [0, 1, 2, 3 :: int]), Some (NDArray [4] [-4, -3, -2, -1])],
            [Some (NDArray [4] [1, 3, 5, 7]), Some (NDArray [4] [0, 2, 4, 6])],
            [Some (NDArray [4] [1, 1, 2, 1]), Some (NDArray [4] [1, 2, 1, 1])]) [3, 1, 0]
     = Inr (Some [Some (NDArray [3] [3, 1, 0]), Some (NDArray [3] [-1, -3, -4])],
                 Some [Some (NDArray [3] [7, 3, 1]), Some (NDArray [3] [6, 2, 0])],
                 Some [Some (NDArray [3] [1, 1, 1]), Some (NDArray [3] [1, 2, 1])])"
    by (simp add: select_args_def select_def getitem_def ravel_def item_def)
  have te: "select_args ([Some (NDArray [4] [0, 1, 2, 3 :: int]), Some (NDArray [4] [-4, -3, -2, -1])],
            [Some (NDArray [4] [1, 3, 5, 7]), Some (NDArray [4] [0, 2, 4, 6])],
            [Some (NDArray [4] [1, 1, 2, 1]), Some (NDArray [4] [1, 2, 1, 1])]) [2]
     = Inr (Some [Some (NDArray [1] [2]), Some (NDArray [1] [-2])],
                 Some [Some (NDArray [1] [5]), Some (NDArray [1] [4])],
                 Some [Some (NDArray [1] [2]), Some (NDArray [1] [1])])"
    by (simp add: select_args_def select_def getitem_def ravel_def item_def)
  have n: "first_size (fst (snd ([Some (NDArray [4] [0, 1, 2, 3 :: int]), Some (NDArray [4] [-4, -3, -2, -1])],
            [Some (NDArray [4] [1, 3, 5, 7 :: int]), Some (NDArray [4] [0, 2, 4, 6])],
            [Some (NDArray [4] [1, 1, 2, 1 :: int]), Some (NDArray [4] [1, 2, 1, 1])]))) = Inr 4"
    by (simp add: first_size_def size_nd_def)
  have kw: "''n_splits'' \<notin> set (map fst [(''random_state'', 0 :: int)])"
    by simp
  have "arange 4 = [0, 1, 2, 3]"
    by (simp add: arange_def upt_rec)
  with assms have gen: "ShuffleSplit 1 [(''random_state'', 0 :: int)] g (arange 4)
      = Inr ([3, 1, 0], [2]) # later"
    by simp
  from chk n kw gen tr te show ?thesis
    by (rule train_test_split_step)
qed

lemma select_args_absent_weights:
  assumes "select_args (c, d, w) index = Inr (x, y, z)" and "list_ex (\<lambda>i. i = None) w"
  shows "z = Some w"
  using assms by (auto simp: select_args_def select_def split: sum.splits)

lemma train_test_split_InrD:
  assumes "train_test_split ShuffleSplit g coordinates data weights kwargs = Inr (train, test)"
  shows "\<exists>args n train_index test_index later.
           check_fit_input coordinates data weights = Inr args
         \<and> first_size (fst (snd args)) = Inr n
         \<and> ShuffleSplit 1 kwargs g (arange n) = Inr (train_index, test_index) # later
         \<and> select_args args train_index = Inr train
         \<and> select_args args test_index = Inr test"
  using assms
  by (auto simp: train_test_split_def split: sum.splits list.splits if_splits prod.splits)

text \<open>
  C5. Without weights: whenever \<open>train_test_split\<close> is called with
  \<open>weights=None\<close> and returns, the normalized weight tuple holds the absent marker
  only, and the weights slot of the train tuple and of the test tuple is that very
  tuple: selection leaves it as it is.
\<close>

theorem train_test_split_absent_weights:
  assumes "train_test_split ShuffleSplit g coordinates data None kwargs
             = Inr ((train_c, train_d, train_w), (test_c, test_d, test_w))"
  shows "\<exists>c d w. check_fit_input coordinates data None = Inr (c, d, w)
           \<and> w \<noteq> [] \<and> list_all (\<lambda>x. x = None) w
           \<and> train_w = Some w \<and> test_w = Some w"
proof -
  from train_test_split_InrD [OF assms] obtain args train_index test_index where
    chk: "check_fit_input coordinates data None = Inr args"
    and tr: "select_args args train_index = Inr (train_c, train_d, train_w)"
    and te: "select_args args test_index = Inr (test_c, test_d, test_w)"
    by blast
  obtain c d w where args: "args = (c, d, w)"
    by (cases args) auto
  from chk args have w: "w = [None]"
    by (auto simp: check_fit_input_def Let_def split: if_splits)
  then have "list_ex (\<lambda>i. i = None) w" by simp
  with tr te args have "train_w = Some w" "test_w = Some w"
    by (auto dest: select_args_absent_weights)
  with chk args w show ?thesis by simp
qed

theorem train_test_split_absent_weights_witness:
  "train_test_split (yielding [Inr ([3, 1, 0], [2])] :: (int, unit) shuffle_split) ()
       [NDArray [4] [0, 1, 2, 3 :: int], NDArray [4] [-4, -3, -2, -1]]
       (Single (NDArray [4] [1, 3, 5, 7])) None [(''random_state'', 0)]
     = Inr ((Some [Some (NDArray [3] [3, 1, 0]), Some (NDArray [3] [-1, -3, -4])],
             Some [Some (NDArray [3] [7, 3, 1])], Some [None]),
            (Some [Some (NDArray [1] [2]), Some (NDArray [1] [-2])],
             Some [Some (NDArray [1] [5])], Some [None]))
   \<and> (\<exists>c d w. check_fit_input [NDArray [4] [0, 1, 2, 3 :: int], NDArray [4] [-4, -3, -2, -1]]
                 (Single (NDArray [4] [1, 3, 5, 7])) None = Inr (c, d, w)
           \<and> w \<noteq> [] \<and> list_all (\<lambda>x. x = None) w
           \<and> Some [None] = Some w)"
proof -
  have run: "train_test_split (yielding [Inr ([3, 1, 0], [2])] :: (int, unit) shuffle_split) ()
       [NDArray [4] [0, 1, 2, 3 :: int], NDArray [4] [-4, -3, -2, -1]]
       (Single (NDArray [4] [1, 3, 5, 7])) None [(''random_state'', 0)]
     = Inr ((Some [Some (NDArray [3] [3, 1, 0]), Some (NDArray [3] [-1, -3, -4])],
             Some [Some (NDArray [3] [7, 3, 1])], Some [None]),
            (Some [Some (NDArray [1] [2]), Some (NDArray [1] [-2])],
             Some [Some (NDArray [1] [5])], Some [None]))"
    by code_simp
  from train_test_split_absent_weights [OF run] run show ?thesis
    by blast
qed

theorem train_test_split_len_counterexample:
  "train_test_split rotating_split 0 [NDArray [2, 2] [0, 1, 2, 3 :: int]]
       (Single (NDArray [2, 2] [1, 3, 5, 7])) None []
     = Inr ((Some [Some (NDArray [3] [0, 1, 2])], Some [Some (NDArray [3] [1, 3, 5])], Some [None]),
            (Some [Some (NDArray [1] [3])], Some [Some (NDArray [1] [7])], Some [None]))
   \<and> train_test_split_spec rotating_split 0 [NDArray [2, 2] [0, 1, 2, 3 :: int]]
       (Single (NDArray [2, 2] [1, 3, 5, 7])) None []
     = Inr ((Some [Some (NDArray [1] [0])], Some [Some (NDArray [1] [1])], Some [None]),
            (Some [Some (NDArray [1] [1])], Some [Some (NDArray [1] [3])], Some [None]))
   \<and> train_test_split rotating_split 0 [NDArray [2, 2] [0, 1, 2, 3 :: int]]
       (Single (NDArray [2, 2] [1, 3, 5, 7])) None []
     \<noteq> train_test_split_spec rotating_split 0 [NDArray [2, 2] [0, 1, 2, 3 :: int]]
       (Single (NDArray [2, 2] [1, 3, 5, 7])) None []"
  by code_simp

section \<open>Properties of cross\_val\_score\<close>

lemma cv_loop_append:
  "cv_loop submit est args (xs @ ys) acc w =
     (case cv_loop submit est args xs acc w of
        Inl e \<Rightarrow> Inl e
      | Inr (sc, w1) \<Rightarrow> cv_loop submit est args ys sc w1)"
proof (induction xs arbitrary: acc w)
  case Nil
  then show ?case by simp
next
  case (Cons x xs)
  then show ?case
    by (cases x) (auto split: sum.splits prod.splits)
qed

lemma cv_loop_InrD:
  assumes "cv_loop submit est args its acc w = Inr (scores, w')"
  shows "\<exists>folds new ws.
           its = map Inr folds \<and> scores = acc @ new \<and> length new = length folds
         \<and> length ws = Suc (length folds) \<and> ws ! 0 = w \<and> ws ! length folds = w'
         \<and> (\<forall>k<length folds. \<exists>train_data test_data.
                select_args args (fst (folds ! k)) = Inr train_data
              \<and> select_args args (snd (folds ! k)) = Inr test_data
              \<and> submit fit_score est train_data test_data (ws ! k) = Inr (new ! k, ws ! Suc k))"
  using assms
proof (induction its arbitrary: acc w)
  case Nil
  then have "scores = acc" "w' = w" by simp_all
  then have "[] = map Inr ([] :: (int list \<times> int list) list) \<and> scores = acc @ [] \<and> length ([] :: 'c list) = length ([] :: (int list \<times> int list) list)
         \<and> length [w] = Suc (length ([] :: (int list \<times> int list) list)) \<and> [w] ! 0 = w \<and> [w] ! length ([] :: (int list \<times> int list) list) = w'"
    by simp
  then show ?case by (intro exI [of _ "[]"] exI [of _ "[w]"]) simp
next
  case (Cons x its)
  from Cons.prems obtain train test where x: "x = Inr (train, test)"
    by (cases x) auto
  from Cons.prems x obtain train_data test_data s w1 where
    tr: "select_args args train = Inr train_data"
    and te: "select_args args test = Inr test_data"
    and sub: "submit fit_score est train_data test_data w = Inr (s, w1)"
    and rest: "cv_loop submit est args its (acc @ [s]) w1 = Inr (scores, w')"
    by (auto split: sum.splits prod.splits)
  from Cons.IH [OF rest] obtain folds new ws where
    ih: "its = map Inr folds" "scores = (acc @ [s]) @ new" "length new = length folds"
      "length ws = Suc (length folds)" "ws ! 0 = w1" "ws ! length folds = w'"
      "\<forall>k<length folds. \<exists>train_data test_data.
                select_args args (fst (folds ! k)) = Inr train_data
              \<and> select_args args (snd (folds ! k)) = Inr test_data
              \<and> submit fit_score est train_data test_data (ws ! k) = Inr (new ! k, ws ! Suc k)"
    by blast
  let ?folds = "(train, test) # folds" and ?new = "s # new" and ?ws = "w # ws"
  have step: "\<exists>train_data test_data.
                select_args args (fst (?folds ! k)) = Inr train_data
              \<and> select_args args (snd (?folds ! k)) = Inr test_data
              \<and> submit fit_score est train_data test_data (?ws ! k) = Inr (?new ! k, ?ws ! Suc k)"
    if "k < length ?folds" for k
  proof (cases k)
    case 0
    with tr te sub ih(5) show ?thesis by simp
  next
    case (Suc j)
    with that have "j < length folds" by simp
    with ih(7) Suc show ?thesis by simp
  qed
  then have all: "\<forall>k<length ?folds. \<exists>train_data test_data.
                select_args args (fst (?folds ! k)) = Inr train_data
              \<and> select_args args (snd (?folds ! k)) = Inr test_data
              \<and> submit fit_score est train_data test_data (?ws ! k) = Inr (?new ! k, ?ws ! Suc k)"
    by blast
  have "x # its = map Inr ?folds \<and> scores = acc @ ?new \<and> length ?new = length ?folds
      \<and> length ?ws = Suc (length ?folds) \<and> ?ws ! 0 = w \<and> ?ws ! length ?folds = w'"
    using x ih by simp
  with all show ?case
    by (intro exI [of _ "?folds"] exI [of _ "?new"] exI [of _ "?ws"]) (rule conjI | erule conjE | assumption)+
qed

lemma cross_val_score_InrD:
  assumes "cross_val_score KFold est w coordinates data weights cv client = Inr (scores, w')"
  shows "\<exists>args n results.
           check_fit_input coordinates data weights = Inr args
         \<and> first_size (fst (snd args)) = Inr n
         \<and> cv_loop (case client of None \<Rightarrow> DummyClient_submit | Some c \<Rightarrow> c) est args
              ((case cv of None \<Rightarrow> KFold True 0 5 | Some c \<Rightarrow> c) (arange n)) [] w = Inr (results, w')
         \<and> scores = NDArray [length results] results"
  using assms
  by (auto simp: cross_val_score_def Let_def asarray_def split: sum.splits prod.splits)

text \<open>
  C3. Whenever \<open>cross_val_score\<close> returns, the generator (the given \<open>cv\<close>, or the
  default K-fold) yielded a finite sequence of folds on the indices 0..n-1 and raised
  nothing; the result is a 1-d array with one entry per fold, and entry \<open>k\<close> is what
  the backend returned when the fit-and-score unit of the \<open>k\<close>-th yielded fold was
  submitted to it, in the state left by the submissions before it.
\<close>

theorem cross_val_score_order:
  assumes "cross_val_score KFold est w coordinates data weights cv client = Inr (scores, w')"
  shows "\<exists>args n folds ws.
           check_fit_input coordinates data weights = Inr args
         \<and> first_size (fst (snd args)) = Inr n
         \<and> (case cv of None \<Rightarrow> KFold True 0 5 | Some c \<Rightarrow> c) (arange n) = map Inr folds
         \<and> shape scores = [length folds] \<and> length (flat scores) = length folds
         \<and> length ws = Suc (length folds) \<and> ws ! 0 = w \<and> ws ! length folds = w'
         \<and> (\<forall>k<length folds. \<exists>train_data test_data.
                select_args args (fst (folds ! k)) = Inr train_data
              \<and> select_args args (snd (folds ! k)) = Inr test_data
              \<and> (case client of None \<Rightarrow> DummyClient_submit | Some c \<Rightarrow> c)
                   fit_score est train_data test_data (ws ! k)
                  = Inr (flat scores ! k, ws ! Suc k))"
proof -
  let ?submit = "case client of None \<Rightarrow> DummyClient_submit | Some c \<Rightarrow> c"
  let ?split = "case cv of None \<Rightarrow> KFold True 0 5 | Some c \<Rightarrow> c"
  from cross_val_score_InrD [OF assms] obtain args n results where
    chk: "check_fit_input coordinates data weights = Inr args"
    and n: "first_size (fst (snd args)) = Inr n"
    and loop: "cv_loop ?submit est args (?split (arange n)) [] w = Inr (results, w')"
    and scores: "scores = NDArray [length results] results"
    by blast
  from cv_loop_InrD [OF loop] obtain folds new ws where
    run: "?split (arange n) = map Inr folds" "results = [] @ new" "length new = length folds"
      "length ws = Suc (length folds)" "ws ! 0 = w" "ws ! length folds = w'"
      "\<forall>k<length folds. \<exists>train_data test_data.
                select_args args (fst (folds ! k)) = Inr train_data
              \<and> select_args args (snd (folds ! k)) = Inr test_data
              \<and> ?submit fit_score est train_data test_data (ws ! k) = Inr (new ! k, ws ! Suc k)"
    by blast
  from run(2) scores have flat: "flat scores = new" by simp
  from run(2,3) scores have shp: "shape scores = [length folds]" by simp
  have "check_fit_input coordinates data weights = Inr args
         \<and> first_size (fst (snd args)) = Inr n
         \<and> ?split (arange n) = map Inr folds
         \<and> shape scores = [length folds] \<and> length (flat scores) = length folds
         \<and> length ws = Suc (length folds) \<and> ws ! 0 = w \<and> ws ! length folds = w'
         \<and> (\<forall>k<length folds. \<exists>train_data test_data.
                select_args args (fst (folds ! k)) = Inr train_data
              \<and> select_args args (snd (folds ! k)) = Inr test_data
              \<and> ?submit fit_score est train_data test_data (ws ! k)
                  = Inr (flat scores ! k, ws ! Suc k))"
    using chk n run(1,3,4,5,6,7) shp by (simp add: flat)
  then show ?thesis
    by (intro exI [of _ args] exI [of _ n] exI [of _ folds] exI [of _ ws])
qed

theorem cross_val_score_order_witness:
  "cross_val_score (\<lambda>shuffle seed n. halves) sum_estimator 0
       [NDArray [4] [0, 1, 2, 3 :: int]] (Single (NDArray [4] [1, 3, 5, 7])) None None None
     = Inr (NDArray [2] [8, -8], 4)
   \<and> (\<exists>n folds. halves (arange n) = map Inr folds \<and> length folds = 2)"
proof -
  have run: "cross_val_score (\<lambda>shuffle seed n. halves) sum_estimator 0
       [NDArray [4] [0, 1, 2, 3 :: int]] (Single (NDArray [4] [1, 3, 5, 7])) None None None
     = Inr (NDArray [2] [8, -8], 4)"
    by code_simp
  from cross_val_score_order [OF run] obtain n folds where
    "halves (arange n) = map Inr folds"
    "length (flat (NDArray [2] [8, -8 :: int])) = length folds"
    by auto
  then have "halves (arange n) = map Inr folds \<and> length folds = 2"
    by simp
  with run show ?thesis by blast
qed

lemma fit_score_failure:
  assumes "fit est w train_data = Inl e
         \<or> (\<exists>wf. fit est w train_data = Inr wf \<and> score est wf test_data = Inl e)"
  shows "fit_score est train_data test_data w = Inl e"
  using assms by (auto simp: fit_score_def)

text \<open>
  C8. Under the immediate backend a failure of the estimator aborts the call
  unchanged: when the generator yields a fold after folds that were scored without
  error, and \<open>fit\<close> on its training data, or \<open>score\<close> of the fitted estimator on
  its test data, raises \<open>e\<close>, then \<open>cross_val_score\<close> raises that same \<open>e\<close>; no
  score is returned and the folds after it are not run.
\<close>

theorem cross_val_score_failure_propagates:
  assumes chk: "check_fit_input coordinates data weights = Inr args"
    and n: "first_size (fst (snd args)) = Inr n"
    and gen: "(case cv of None \<Rightarrow> KFold True 0 5 | Some c \<Rightarrow> c) (arange n)
                = map Inr before @ Inr (train, test) # later"
    and earlier: "cv_loop DummyClient_submit est args (map Inr before) [] w = Inr (scores, wk)"
    and tr: "select_args args train = Inr train_data"
    and te: "select_args args test = Inr test_data"
    and fails: "fit est wk train_data = Inl e
         \<or> (\<exists>wf. fit est wk train_data = Inr wf \<and> score est wf test_data = Inl e)"
  shows "cross_val_score KFold est w coordinates data weights cv None = Inl e"
proof -
  from fails have "fit_score est train_data test_data wk = Inl e"
    by (rule fit_score_failure)
  then have "DummyClient_submit fit_score est train_data test_data wk = Inl e"
    by (simp add: DummyClient_submit_def)
  with tr te have "cv_loop DummyClient_submit est args (Inr (train, test) # later) scores wk = Inl e"
    by simp
  with earlier have "cv_loop DummyClient_submit est args
      (map Inr before @ Inr (train, test) # later) [] w = Inl e"
    by (simp add: cv_loop_append)
  with chk n gen show ?thesis
    by (simp add: cross_val_score_def)
qed

theorem cross_val_score_failure_propagates_witness:
  "cross_val_score (\<lambda>shuffle seed n. halves) sum_estimator 0
       [NDArray [4] [0, 1, 2, 3 :: int]] (Single (NDArray [4] [1, 3, 5, 7])) None
       (Some (yielding [Inr ([0, 1], [2, 3]), Inr ([0, 1, 2, 3], []), Inr ([3], [0])]
                (5 :: int) ([] :: (string \<times> int) list) ())) None
     = Inl (Raised ''score: no data'')"
proof -
  let ?args = "([Some (NDArray [4] [0, 1, 2, 3 :: int])], [Some (NDArray [4] [1, 3, 5, 7 :: int])],
                [None :: int ndarray option])"
  let ?cv = "Some (yielding [Inr ([0, 1], [2, 3]), Inr ([0, 1, 2, 3], []), Inr ([3], [0])]
                     (5 :: int) ([] :: (string \<times> int) list) ())"
  have chk: "check_fit_input [NDArray [4] [0, 1, 2, 3 :: int]] (Single (NDArray [4] [1, 3, 5, 7])) None
      = Inr ?args"
    by (simp add: check_fit_input_def as_tuple_def same_sizes_def size_nd_def)
  have n: "first_size (fst (snd ?args)) = Inr 4"
    by (simp add: first_size_def size_nd_def)
  have gen: "(case ?cv of None \<Rightarrow> (\<lambda>shuffle seed n. halves) True 0 5 | Some c \<Rightarrow> c) (arange 4)
      = map Inr [([0, 1], [2, 3])] @ Inr ([0, 1, 2, 3], []) # [Inr ([3], [0])]"
    by (simp add: yielding_def)
  have earlier: "cv_loop DummyClient_submit sum_estimator ?args (map Inr [([0, 1], [2, 3])]) [] 0
      = Inr ([-8], 4)"
    by code_simp
  have tr: "select_args ?args [0, 1, 2, 3]
      = Inr (Some [Some (NDArray [4] [0, 1, 2, 3])], Some [Some (NDArray [4] [1, 3, 5, 7])], Some [None])"
    by code_simp
  have te: "select_args ?args [] = Inr (Some [Some (NDArray [0] [])], Some [Some (NDArray [0] [])], Some [None])"
    by code_simp
  have fails: "fit sum_estimator 4
          (Some [Some (NDArray [4] [0, 1, 2, 3])], Some [Some (NDArray [4] [1, 3, 5, 7])], Some [None])
        = Inl (Raised ''score: no data'')
      \<or> (\<exists>wf. fit sum_estimator 4
          (Some [Some (NDArray [4] [0, 1, 2, 3])], Some [Some (NDArray [4] [1, 3, 5, 7])], Some [None])
            = Inr wf
          \<and> score sum_estimator wf (Some [Some (NDArray [0] [])], Some [Some (NDArray [0] [])], Some [None])
            = Inl (Raised ''score: no data''))"
    by (simp add: sum_estimator_def first_component_def)
  from cross_val_score_failure_propagates [OF chk n gen earlier tr te fails]
  show ?thesis .
qed

section \<open>Effects of select\<close>

lemma getitem_st_InrD:
  assumes "getitem_st h r index = Inr (b, h')"
  shows "\<exists>vs. items (h ! addr r) index = Inr vs \<and> h' = h @ [vs]
            \<and> b = \<lparr>addr = length h, dims = [length index]\<rparr>"
  using assms by (auto simp: getitem_st_def split: sum.splits)

lemma select_each_st_alloc:
  assumes "select_each_st h xs index = Inr (ys, h')"
  shows "\<exists>bufs out. h' = h @ bufs \<and> length bufs = length xs \<and> ys = map Some out
           \<and> map addr out = [length h..<length h + length xs]"
  using assms
proof (induction xs arbitrary: h ys)
  case Nil
  then have "h' = h @ [] \<and> length ([] :: 'a list list) = length ([] :: aref option list)
      \<and> ys = map Some [] \<and> map addr [] = [length h..<length h + length ([] :: aref option list)]"
    by simp
  then show ?case by blast
next
  case (Cons x xs)
  from Cons.prems obtain r where x: "x = Some r"
    by (cases x) auto
  from Cons.prems x obtain b h1 bs where
    get: "getitem_st h (ravel_st h r) index = Inr (b, h1)"
    and rest: "select_each_st h1 xs index = Inr (bs, h')"
    and ys: "ys = Some b # bs"
    by (auto split: sum.splits prod.splits)
  from getitem_st_InrD [OF get] obtain vs where
    h1: "h1 = h @ [vs]" and b: "b = \<lparr>addr = length h, dims = [length index]\<rparr>"
    by blast
  from Cons.IH [OF rest] obtain bufs out where
    ih: "h' = h1 @ bufs" "length bufs = length xs" "bs = map Some out"
      "map addr out = [length h1..<length h1 + length xs]"
    by blast
  have "map addr (b # out) = [length h..<length h + length (x # xs)]"
    using ih(4) h1 b by (simp add: upt_conv_Cons del: upt_Suc)
  moreover have "h' = h @ (vs # bufs)" "length (vs # bufs) = length (x # xs)"
    "ys = map Some (b # out)"
    using ih h1 ys by simp_all
  ultimately show ?case by blast
qed

lemma items_cong_length: "items xs index = Inr vs \<Longrightarrow> length vs = length index"
  by (induction index arbitrary: vs) (auto split: sum.splits)

lemma select_each_st_refines:
  assumes "select_each_st h (map Some rs) index = Inr (map Some out, h')"
    and "\<forall>r\<in>set rs. addr r < length h"
  shows "select_each (map (\<lambda>r. Some (deref h r)) rs) index
           = Inr (map (\<lambda>b. Some (deref h' b)) out)"
  using assms
proof (induction rs arbitrary: h out)
  case Nil
  then show ?case by simp
next
  case (Cons r rs)
  from Cons.prems(1) obtain b h1 bs where
    get: "getitem_st h (ravel_st h r) index = Inr (b, h1)"
    and rest: "select_each_st h1 (map Some rs) index = Inr (bs, h')"
    and out': "map Some out = Some b # bs"
    by (auto split: sum.splits prod.splits)
  from out' obtain out1 where out: "out = b # out1" and bs: "bs = map Some out1"
    by (cases out) auto
  from getitem_st_InrD [OF get] obtain vs where
    vs: "items (h ! addr (ravel_st h r)) index = Inr vs"
    and h1: "h1 = h @ [vs]" and b: "b = \<lparr>addr = length h, dims = [length index]\<rparr>"
    by blast
  from select_each_st_alloc [OF rest] obtain bufs where h': "h' = h1 @ bufs"
    by blast
  have valid: "\<forall>r\<in>set rs. addr r < length h1"
    using Cons.prems(2) h1 by auto
  have same: "deref h1 q = deref h q" if "q \<in> set rs" for q
    using that Cons.prems(2) h1 by (simp add: deref_def nth_append)
  from rest bs have "select_each_st h1 (map Some rs) index = Inr (map Some out1, h')"
    by simp
  from Cons.IH [OF this valid]
  have "select_each (map (\<lambda>r. Some (deref h1 r)) rs) index
      = Inr (map (\<lambda>b. Some (deref h' b)) out1)" .
  moreover have "map (\<lambda>r. Some (deref h1 r)) rs = map (\<lambda>r. Some (deref h r)) rs"
    using same by simp
  ultimately have tail: "select_each (map (\<lambda>r. Some (deref h r)) rs) index
      = Inr (map (\<lambda>b. Some (deref h' b)) out1)"
    by simp
  have "deref h' b = NDArray [length index] vs"
    using h' h1 b by (simp add: deref_def nth_append)
  moreover have "getitem (ravel (deref h r)) index = Inr (NDArray [length index] vs)"
    using vs by (simp add: getitem_def ravel_def deref_def ravel_st_def)
  ultimately show ?case
    using tail out by simp
qed

text \<open>
  C9 (as amended). \<open>select\<close> has no side effect: whenever it returns, every
  buffer that existed before the call is unchanged. For a tuple of arrays in which no
  element is absent the returned arrays are copies: each has a buffer allocated by the
  call, the new buffers are pairwise different and none is the buffer of an input
  array, the input arrays read as before, and the values returned are those of
  \<open>select\<close> on the values of the inputs.
\<close>

theorem select_st_pure:
  assumes "select_st h arrays index = Inr (res, h')"
  shows "take (length h) h' = h
       \<and> (\<forall>rs. arrays = Some (map Some rs) \<and> (\<forall>r\<in>set rs. addr r < length h) \<longrightarrow>
            (\<exists>out. res = Some (map Some out) \<and> length out = length rs
               \<and> (\<forall>b\<in>set out. length h \<le> addr b \<and> addr b < length h')
               \<and> (\<forall>b\<in>set out. \<forall>r\<in>set rs. addr b \<noteq> addr r)
               \<and> distinct (map addr out)
               \<and> (\<forall>r\<in>set rs. deref h' r = deref h r)
               \<and> select (Some (map (\<lambda>r. Some (deref h r)) rs)) index
                    = Inr (Some (map (\<lambda>b. Some (deref h' b)) out))))"
proof (intro conjI allI impI)
  show "take (length h) h' = h"
  proof (cases arrays)
    case None
    with assms show ?thesis by (simp add: select_st_def)
  next
    case (Some xs)
    show ?thesis
    proof (cases "list_ex (\<lambda>i. i = None) xs")
      case True
      with assms Some show ?thesis by (simp add: select_st_def)
    next
      case False
      with assms Some obtain ys where "select_each_st h xs index = Inr (ys, h')"
        by (auto simp: select_st_def split: sum.splits)
      from select_each_st_alloc [OF this] show ?thesis by auto
    qed
  qed
next
  fix rs
  assume a: "arrays = Some (map Some rs) \<and> (\<forall>r\<in>set rs. addr r < length h)"
  then have valid: "\<forall>r\<in>set rs. addr r < length h" by simp
  have "\<not> list_ex (\<lambda>i. i = None) (map Some rs)"
    by (simp add: list_ex_iff)
  with assms a obtain ys where run: "select_each_st h (map Some rs) index = Inr (ys, h')"
    and res: "res = Some ys"
    by (auto simp: select_st_def split: sum.splits)
  from select_each_st_alloc [OF run] obtain bufs out where
    al: "h' = h @ bufs" "length bufs = length (map Some rs)" "ys = map Some out"
      "map addr out = [length h..<length h + length (map Some rs)]"
    by blast
  from al(4) have len: "length out = length rs"
    using length_map [of addr out] by simp
  from al(4) have addrs: "addr ` set out = {length h..<length h + length rs}"
    using set_map [of addr out] by simp
  then have fresh: "\<forall>b\<in>set out. length h \<le> addr b \<and> addr b < length h'"
    using al(1,2) by auto
  with valid have apart: "\<forall>b\<in>set out. \<forall>r\<in>set rs. addr b \<noteq> addr r"
    by fastforce
  from al(4) have dist: "distinct (map addr out)" by simp
  from valid al(1) have kept: "\<forall>r\<in>set rs. deref h' r = deref h r"
    by (simp add: deref_def nth_append)
  from run al(3) have "select_each_st h (map Some rs) index = Inr (map Some out, h')"
    by simp
  from select_each_st_refines [OF this valid]
  have "select (Some (map (\<lambda>r. Some (deref h r)) rs)) index
      = Inr (Some (map (\<lambda>b. Some (deref h' b)) out))"
    by (auto simp: select_def list_ex_iff)
  with res al(3) len fresh apart dist kept
  show "\<exists>out. res = Some (map Some out) \<and> length out = length rs
               \<and> (\<forall>b\<in>set out. length h \<le> addr b \<and> addr b < length h')
               \<and> (\<forall>b\<in>set out. \<forall>r\<in>set rs. addr b \<noteq> addr r)
               \<and> distinct (map addr out)
               \<and> (\<forall>r\<in>set rs. deref h' r = deref h r)
               \<and> select (Some (map (\<lambda>r. Some (deref h r)) rs)) index
                    = Inr (Some (map (\<lambda>b. Some (deref h' b)) out))"
    by blast
qed

theorem select_st_pure_witness:
  "select_st [[0, 1, 2, 3 :: int], [1, 3, 5, 7]]
       (Some (map Some [\<lparr>addr = 0, dims = [4]\<rparr>, \<lparr>addr = 1, dims = [2, 2]\<rparr>])) [3, 1, 0]
     = Inr (Some [Some \<lparr>addr = 2, dims = [3]\<rparr>, Some \<lparr>addr = 3, dims = [3]\<rparr>],
            [[0, 1, 2, 3], [1, 3, 5, 7], [3, 1, 0], [7, 3, 1]])
   \<and> take 2 [[0, 1, 2, 3 :: int], [1, 3, 5, 7], [3, 1, 0], [7, 3, 1]] = [[0, 1, 2, 3], [1, 3, 5, 7]]
   \<and> (\<exists>out. Some [Some \<lparr>addr = 2, dims = [3]\<rparr>, Some \<lparr>addr = 3, dims = [3]\<rparr>] = Some (map Some out)
         \<and> (\<forall>b\<in>set out. 2 \<le> addr b) \<and> distinct (map addr out))"
proof -
  let ?h = "[[0, 1, 2, 3 :: int], [1, 3, 5, 7]]"
  let ?rs = "[\<lparr>addr = 0, dims = [4]\<rparr>, \<lparr>addr = 1, dims = [2, 2]\<rparr>]"
  have run: "select_st ?h (Some (map Some ?rs)) [3, 1, 0]
     = Inr (Some [Some \<lparr>addr = 2, dims = [3]\<rparr>, Some \<lparr>addr = 3, dims = [3]\<rparr>],
            [[0, 1, 2, 3], [1, 3, 5, 7], [3, 1, 0], [7, 3, 1]])"
    by (simp add: select_st_def getitem_st_def ravel_st_def item_def)
  have valid: "Some (map Some ?rs) = Some (map Some ?rs) \<and> (\<forall>r\<in>set ?rs. addr r < length ?h)"
    by simp
  note pure = select_st_pure [OF run]
  note copies = mp [OF spec [OF conjunct2 [OF pure], of ?rs] valid]
  from pure have kept: "take (length ?h) [[0, 1, 2, 3 :: int], [1, 3, 5, 7], [3, 1, 0], [7, 3, 1]] = ?h"
    by (rule conjunct1)
  from copies obtain out where
    "Some [Some \<lparr>addr = 2, dims = [3]\<rparr>, Some \<lparr>addr = 3, dims = [3]\<rparr>] = Some (map Some out)"
    "\<forall>b\<in>set out. length ?h \<le> addr b \<and> addr b < length [[0, 1, 2, 3 :: int], [1, 3, 5, 7], [3, 1, 0], [7, 3, 1]]"
    "distinct (map addr out)"
    by (elim exE conjE) (rule that, assumption+)
  then have "\<exists>out. Some [Some \<lparr>addr = 2, dims = [3]\<rparr>, Some \<lparr>addr = 3, dims = [3]\<rparr>] = Some (map Some out)
             \<and> (\<forall>b\<in>set out. 2 \<le> addr b) \<and> distinct (map addr out)"
    by auto
  with kept run show ?thesis by simp
qed

section \<open>The seeded generator\<close>

lemma rk_random_seeded:
  assumes "pos < 227"
  shows "rk_random (map (key_word s) [0..<624], pos)
           = (seeded_out s pos, (map (key_word s) [0..<624], Suc pos))"
proof -
  from assms have "regen_word (map (key_word s) [0..<624]) pos
      = mix (key_word s pos) (key_word s (Suc pos)) (key_word s (pos + 397))"
    by (subst regen_word.simps) simp
  with assms show ?thesis
    by (simp add: rk_random.simps seeded_out_def)
qed

lemma interval_on_pos:
  assumes "interval_on out fuel m pos = Some (j, pos')"
  shows "pos \<le> pos'"
  using assms
proof (induction fuel arbitrary: pos)
  case 0
  then show ?case by simp
next
  case (Suc fuel)
  show ?case
  proof (cases "m = 0 \<or> masked (out pos) m \<le> m")
    case True
    with Suc.prems show ?thesis by (auto simp: Let_def split: if_splits)
  next
    case False
    with Suc.prems have "interval_on out fuel m (Suc pos) = Some (j, pos')"
      by (simp add: Let_def)
    from Suc.IH [OF this] show ?thesis by simp
  qed
qed

lemma rk_interval_seeded:
  assumes "interval_on (seeded_out s) fuel m pos = Some (j, pos')" and "pos' \<le> 227"
  shows "rk_interval fuel m (map (key_word s) [0..<624], pos)
           = Some (j, (map (key_word s) [0..<624], pos'))"
  using assms
proof (induction fuel arbitrary: pos)
  case 0
  then show ?case by simp
next
  case (Suc fuel)
  show ?case
  proof (cases "m = 0")
    case True
    with Suc.prems show ?thesis by simp
  next
    case m: False
    from interval_on_pos [OF Suc.prems(1)] have le: "pos \<le> pos'" .
    show ?thesis
    proof (cases "masked (seeded_out s pos) m \<le> m")
      case True
      with m Suc.prems have j: "j = masked (seeded_out s pos) m" and p: "pos' = Suc pos"
        by (simp_all add: Let_def)
      from p Suc.prems(2) have "pos < 227" by simp
      from rk_random_seeded [OF this] True m j p show ?thesis by simp
    next
      case False
      with m Suc.prems have rest: "interval_on (seeded_out s) fuel m (Suc pos) = Some (j, pos')"
        by (simp add: Let_def)
      from interval_on_pos [OF rest] Suc.prems(2) have "pos < 227" by simp
      from rk_random_seeded [OF this] Suc.IH [OF rest Suc.prems(2)] False m
      show ?thesis by simp
    qed
  qed
qed

lemma shuffle_on_pos:
  assumes "shuffle_on out fuel i x pos = Some (y, pos')"
  shows "pos \<le> pos'"
  using assms
proof (induction i arbitrary: x pos)
  case 0
  then show ?case by simp
next
  case (Suc i)
  from Suc.prems obtain j p where
    draw: "interval_on out fuel (Suc i) pos = Some (j, p)"
    and rest: "shuffle_on out fuel i (x[Suc i := x ! j, j := x ! Suc i]) p = Some (y, pos')"
    by (auto split: option.splits)
  from interval_on_pos [OF draw] Suc.IH [OF rest] show ?case by simp
qed

lemma shuffle_seeded:
  assumes "shuffle_on (seeded_out s) fuel i x pos = Some (y, pos')" and "pos' \<le> 227"
  shows "shuffle fuel i x (map (key_word s) [0..<624], pos)
           = Some (y, (map (key_word s) [0..<624], pos'))"
  using assms
proof (induction i arbitrary: x pos)
  case 0
  then show ?case by simp
next
  case (Suc i)
  from Suc.prems(1) obtain j p where
    draw: "interval_on (seeded_out s) fuel (Suc i) pos = Some (j, p)"
    and rest: "shuffle_on (seeded_out s) fuel i (x[Suc i := x ! j, j := x ! Suc i]) p = Some (y, pos')"
    by (auto split: option.splits)
  from shuffle_on_pos [OF rest] Suc.prems(2) have "p \<le> 227" by simp
  from rk_interval_seeded [OF draw this] Suc.IH [OF rest Suc.prems(2)]
  show ?case by simp
qed

lemma seeded_out_reference: "seeded_out 5489 0 = 3499211612"
  by code_simp

lemma shuffle_on_seed_0: "shuffle_on (seeded_out 0) 2 3 [0, 1, 2, 3] 0 = Some ([2, 3, 1, 0], 4)"
  by code_simp

lemma rk_interval_mono:
  assumes "rk_interval fuel m st = Some r" and "fuel \<le> fuel'"
  shows "rk_interval fuel' m st = Some r"
  using assms
proof (induction fuel arbitrary: fuel' st)
  case 0
  then show ?case by simp
next
  case (Suc fuel)
  from Suc.prems(2) obtain k where k: "fuel' = Suc k" and le: "fuel \<le> k"
    by (cases fuel') auto
  obtain w st' where d: "rk_random st = (w, st')"
    by (cases "rk_random st") auto
  show ?case
  proof (cases "m = 0 \<or> masked w m \<le> m")
    case True
    with Suc.prems(1) k d show ?thesis by auto
  next
    case False
    with Suc.prems(1) d have "rk_interval fuel m st' = Some r" by simp
    from Suc.IH [OF this le] False k d show ?thesis by simp
  qed
qed

lemma shuffle_mono:
  assumes "shuffle fuel i x st = Some r" and "fuel \<le> fuel'"
  shows "shuffle fuel' i x st = Some r"
  using assms
proof (induction i arbitrary: x st)
  case 0
  then show ?case by simp
next
  case (Suc i)
  from Suc.prems(1) obtain j st' where
    draw: "rk_interval fuel (Suc i) st = Some (j, st')"
    and rest: "shuffle fuel i (x[Suc i := x ! j, j := x ! Suc i]) st' = Some r"
    by (auto split: option.splits)
  from rk_interval_mono [OF draw Suc.prems(2)] Suc.IH [OF rest Suc.prems(2)]
  show ?case by simp
qed

lemma permutation_seed_0:
  assumes "2 \<le> fuel"
  shows "permutation fuel 4 (rk_seed 0) = Some ([2, 3, 1, 0], (map (key_word 0) [0..<624], 4))"
proof -
  have "shuffle 2 3 [0, 1, 2, 3] (map (key_word 0) [0..<624], 0)
      = Some ([2, 3, 1, 0], (map (key_word 0) [0..<624], 4))"
    by (rule shuffle_seeded [OF shuffle_on_seed_0]) simp
  from shuffle_mono [OF this assms]
  have "shuffle fuel 3 [0, 1, 2, 3] (map (key_word 0) [0..<624], 0)
      = Some ([2, 3, 1, 0], (map (key_word 0) [0..<624], 4))" .
  moreover have "arange 4 = [0, 1, 2, 3]"
    by (simp add: arange_def upt_rec)
  ultimately show ?thesis
    by (simp add: permutation_def rk_seed_def)
qed

lemma ShuffleSplit_np_seeded:
  assumes "length indices = n" and "n - (n + 9) div 10 \<noteq> 0"
    and "0 \<le> seed" and "seed < 4294967296"
  shows "ShuffleSplit_np fuel n_splits [(''random_state'', seed)] g indices
           = draw_splits fuel (nat n_splits) n ((n + 9) div 10) (n - (n + 9) div 10)
               (rk_seed (word_of_int seed))"
  using assms by (simp add: ShuffleSplit_np_def)

lemma ShuffleSplit_np_seed_0:
  assumes "2 \<le> fuel"
  shows "ShuffleSplit_np fuel 1 [(''random_state'', 0)] g [0, 1, 2, 3] = [Inr ([3, 1, 0], [2])]"
proof -
  have draw: "draw_splits fuel (Suc 0) 4 1 3 (rk_seed 0) = [Inr ([3, 1, 0], [2])]"
    by (simp add: permutation_seed_0 [OF assms])
  have len: "length [0, 1, 2, 3 :: int] = 4"
    by simp
  have "ShuffleSplit_np fuel 1 [(''random_state'', 0)] g [0, 1, 2, 3]
      = draw_splits fuel (nat 1) 4 ((4 + 9) div 10) (4 - (4 + 9) div 10) (rk_seed (word_of_int 0))"
    by (rule ShuffleSplit_np_seeded [OF len]) simp_all
  with draw show ?thesis
    by simp
qed

section \<open>train\_test\_split on the seeded generator\<close>

text \<open>
  The first output of MT19937 seeded with 5489 is the reference value 3499211612 of
  the generator's authors.
\<close>

lemma mt19937_reference_output: "fst (rk_random (rk_seed 5489)) = 3499211612"
proof -
  have "(0 :: nat) < 227" by simp
  from rk_random_seeded [OF this, of 5489] seeded_out_reference show ?thesis
    by (simp add: rk_seed_def)
qed

text \<open>
  C4. The scenario of the doctest: for the two-component data, coordinates and weights
  below and \<open>random_state=0\<close>, \<open>train_test_split\<close> on scikit-learn's shuffle generator
  selects the train indices \<open>[3, 1, 0]\<close> and the test index \<open>[2]\<close> and returns
  exactly the listed train and test coordinates, data and weights, whatever the
  process-wide random state (two draws per bounded draw suffice).
\<close>

theorem train_test_split_scenario:
  assumes "2 \<le> fuel"
  shows "ShuffleSplit_np fuel 1 [(''random_state'', 0)] g (arange 4) = [Inr ([3, 1, 0], [2])]
       \<and> train_test_split (ShuffleSplit_np fuel) g
           [NDArray [4] [0, 1, 2, 3 :: int], NDArray [4] [-4, -3, -2, -1]]
           (Tuple [NDArray [4] [1, 3, 5, 7], NDArray [4] [0, 2, 4, 6]])
           (Some (Tuple [NDArray [4] [1, 1, 2, 1], NDArray [4] [1, 2, 1, 1]]))
           [(''random_state'', 0)]
         = Inr ((Some [Some (NDArray [3] [3, 1, 0]), Some (NDArray [3] [-1, -3, -4])],
                 Some [Some (NDArray [3] [7, 3, 1]), Some (NDArray [3] [6, 2, 0])],
                 Some [Some (NDArray [3] [1, 1, 1]), Some (NDArray [3] [1, 2, 1])]),
                (Some [Some (NDArray [1] [2]), Some (NDArray [1] [-2])],
                 Some [Some (NDArray [1] [5]), Some (NDArray [1] [4])],
                 Some [Some (NDArray [1] [2]), Some (NDArray [1] [1])]))"
proof -
  have idx: "arange 4 = [0, 1, 2, 3]"
    by (simp add: arange_def upt_rec)
  have gen: "ShuffleSplit_np fuel 1 [(''random_state'', 0)] g [0, 1, 2, 3]
      = Inr ([3, 1, 0], [2]) # []"
    by (rule ShuffleSplit_np_seed_0 [OF assms])
  from gen idx train_test_split_at_indices [of "ShuffleSplit_np fuel" g "[]", OF gen] show ?thesis
    by simp
qed

theorem train_test_split_scenario_witness:
  "ShuffleSplit_np 2 1 [(''random_state'', 0)] (rk_seed 12345) (arange 4) = [Inr ([3, 1, 0], [2])]
   \<and> train_test_split (ShuffleSplit_np 2) (rk_seed 12345)
           [NDArray [4] [0, 1, 2, 3 :: int], NDArray [4] [-4, -3, -2, -1]]
           (Tuple [NDArray [4] [1, 3, 5, 7], NDArray [4] [0, 2, 4, 6]])
           (Some (Tuple [NDArray [4] [1, 1, 2, 1], NDArray [4] [1, 2, 1, 1]]))
           [(''random_state'', 0)]
         = Inr ((Some [Some (NDArray [3] [3, 1, 0]), Some (NDArray [3] [-1, -3, -4])],
                 Some [Some (NDArray [3] [7, 3, 1]), Some (NDArray [3] [6, 2, 0])],
                 Some [Some (NDArray [3] [1, 1, 1]), Some (NDArray [3] [1, 2, 1])]),
                (Some [Some (NDArray [1] [2]), Some (NDArray [1] [-2])],
                 Some [Some (NDArray [1] [5]), Some (NDArray [1] [4])],
                 Some [Some (NDArray [1] [2]), Some (NDArray [1] [1])]))"
proof -
  have "(2 :: nat) \<le> 2" by simp
  from train_test_split_scenario [OF this, of "rk_seed 12345"] show ?thesis .
qed








lemma first_item_take:
  assumes "take 1 xs = take 1 ys"
  shows "(case xs of [] \<Rightarrow> a | x # _ \<Rightarrow> f x) = (case ys of [] \<Rightarrow> a | y # _ \<Rightarrow> f y)"
  using assms by (cases xs; cases ys) auto

text \<open>
  C7 (as amended). For a call whose options do not name \<open>n_splits\<close>:
  \<open>train_test_split\<close> takes the dataset size \<open>n\<close> to be the number of elements of
  the first data component (\<open>.size\<close>), and what it asks of the shuffle generator is
  one thing only, the first partition that the generator, configured with exactly one
  split and the caller's options as they are, yields for the index sequence 0..n-1:
  generators that agree there give the same result, and the result is the selection
  of coordinates, data and weights at that partition's train and test indices.
\<close>

theorem train_test_split_partition:
  assumes "check_fit_input coordinates data weights = Inr (c, Some a # d, w)"
    and "''n_splits'' \<notin> set (map fst kwargs)"
  shows "(\<forall>G'. take 1 (G' 1 kwargs g (map int [0..<size_nd a]))
                  = take 1 (G 1 kwargs g (map int [0..<size_nd a]))
             \<longrightarrow> train_test_split G' g coordinates data weights kwargs
                   = train_test_split G g coordinates data weights kwargs)
       \<and> (\<forall>train_index test_index later train test.
             G 1 kwargs g (map int [0..<size_nd a]) = Inr (train_index, test_index) # later
             \<longrightarrow> (train_test_split G g coordinates data weights kwargs = Inr (train, test)
                    \<longleftrightarrow> select_args (c, Some a # d, w) train_index = Inr train
                      \<and> select_args (c, Some a # d, w) test_index = Inr test))"
proof (intro conjI allI impI)
  fix G' :: "('b, 'c) shuffle_split"
  assume "take 1 (G' 1 kwargs g (map int [0..<size_nd a]))
            = take 1 (G 1 kwargs g (map int [0..<size_nd a]))"
  from first_item_take [OF this]
  show "train_test_split G' g coordinates data weights kwargs
          = train_test_split G g coordinates data weights kwargs"
    using assms by (simp add: train_test_split_def first_size_def arange_def)
next
  fix train_index test_index later train test
  assume "G 1 kwargs g (map int [0..<size_nd a]) = Inr (train_index, test_index) # later"
  with assms
  show "train_test_split G g coordinates data weights kwargs = Inr (train, test)
          \<longleftrightarrow> select_args (c, Some a # d, w) train_index = Inr train
            \<and> select_args (c, Some a # d, w) test_index = Inr test"
    by (auto simp: train_test_split_def first_size_def arange_def split: sum.splits)
qed

theorem train_test_split_partition_witness:
  "check_fit_input [NDArray [2, 2] [0, 1, 2, 3 :: int]] (Single (NDArray [2, 2] [1, 3, 5, 7])) None
     = Inr ([Some (NDArray [2, 2] [0, 1, 2, 3])], Some (NDArray [2, 2] [1, 3, 5, 7]) # [], [None])
   \<and> train_test_split (only_at 1 [0, 1, 2, 3] [Inr ([0, 1, 2], [3]), Inl (Raised ''unused'')])
       (0 :: nat) [NDArray [2, 2] [0, 1, 2, 3 :: int]] (Single (NDArray [2, 2] [1, 3, 5, 7])) None
       ([] :: (string \<times> int) list)
     = train_test_split rotating_split 0 [NDArray [2, 2] [0, 1, 2, 3 :: int]]
       (Single (NDArray [2, 2] [1, 3, 5, 7])) None []
   \<and> train_test_split rotating_split 0 [NDArray [2, 2] [0, 1, 2, 3 :: int]]
       (Single (NDArray [2, 2] [1, 3, 5, 7])) None []
     = Inr ((Some [Some (NDArray [3] [0, 1, 2])], Some [Some (NDArray [3] [1, 3, 5])], Some [None]),
            (Some [Some (NDArray [1] [3])], Some [Some (NDArray [1] [7])], Some [None]))"
proof -
  let ?a = "NDArray [2, 2] [1, 3, 5, 7 :: int]"
  let ?args = "([Some (NDArray [2, 2] [0, 1, 2, 3 :: int])], Some ?a # [], [None :: int ndarray option])"
  let ?G' = "only_at 1 [0, 1, 2, 3] [Inr ([0, 1, 2], [3]), Inl (Raised ''unused'')]
               :: (int, nat) shuffle_split"
  have chk: "check_fit_input [NDArray [2, 2] [0, 1, 2, 3 :: int]] (Single ?a) None = Inr ?args"
    by (simp add: check_fit_input_def as_tuple_def same_sizes_def size_nd_def)
  have kw: "''n_splits'' \<notin> set (map fst ([] :: (string \<times> int) list))"
    by simp
  have gen: "rotating_split 1 [] 0 (map int [0..<size_nd ?a]) = Inr ([0, 1, 2], [3]) # []"
    by code_simp
  have agree: "take 1 (?G' 1 [] 0 (map int [0..<size_nd ?a]))
      = take 1 (rotating_split 1 [] 0 (map int [0..<size_nd ?a]))"
    by code_simp
  have tr: "select_args ?args [0, 1, 2]
      = Inr (Some [Some (NDArray [3] [0, 1, 2])], Some [Some (NDArray [3] [1, 3, 5])], Some [None])"
    by code_simp
  have te: "select_args ?args [3]
      = Inr (Some [Some (NDArray [1] [3])], Some [Some (NDArray [1] [7])], Some [None])"
    by code_simp
  note part = train_test_split_partition [OF chk kw, where G = rotating_split and g = 0]
  from part agree have same: "train_test_split ?G' 0 [NDArray [2, 2] [0, 1, 2, 3 :: int]] (Single ?a) None []
      = train_test_split rotating_split 0 [NDArray [2, 2] [0, 1, 2, 3 :: int]] (Single ?a) None []"
    by blast
  from part gen tr te have "train_test_split rotating_split 0 [NDArray [2, 2] [0, 1, 2, 3 :: int]]
       (Single ?a) None []
     = Inr ((Some [Some (NDArray [3] [0, 1, 2])], Some [Some (NDArray [3] [1, 3, 5])], Some [None]),
            (Some [Some (NDArray [1] [3])], Some [Some (NDArray [1] [7])], Some [None]))"
    by blast
  with chk same show ?thesis
    by simp
qed

theorem select_st_alias_counterexample:
  "select_st [[10, 20, 30 :: int]] (Some [Some \<lparr>addr = 0, dims = [3]\<rparr>, None]) [0]
     = Inr (Some [Some \<lparr>addr = 0, dims = [3]\<rparr>, None], [[10, 20, 30]])"
  by (simp add: select_st_def)

end
